theory Spec2Isabelle
  imports Complex_Main "HOL-Library.Multiset"
begin

section \<open>Data model\<close>

text \<open>
  The types of \<^verbatim>\<open>src/index.ts\<close>. A \<^verbatim>\<open>Date\<close> is its \<^verbatim>\<open>getTime()\<close> value, an integer
  number of milliseconds; in the file it is the fixed-width ISO-8601 UTC text that
  \<^verbatim>\<open>JSON.stringify\<close> writes, whose string order is the order of the instants for the
  years 0000 to 9999, the only ones a recorder's clock gives. Channel
  data is the list of the channel values (bytes) in channel order. The address strings
  \<^verbatim>\<open>U + ":" + S + ":" + N\<close> are kept as the triple they print.
\<close>

record RecordingMetadata =
  filename :: string
  createdAt :: int
  universes :: "nat list"

record Packet =
  TS :: int
  U :: nat
  S :: nat
  N :: nat
  data :: "int list"

record Frame =
  delay :: int
  packet :: "Packet list"

text \<open>
  A sender object of the transport library carries the fields it was created with:
  the local universe, the subnet and the net (\<^verbatim>\<open>createSenders\<close>).
\<close>

record Sender =
  ip :: string
  universe :: nat
  subnet :: nat
  net :: nat

datatype js_error = SyntaxError | TypeError

text \<open>
  The decompressed text of a recording, cut where the source's \<^verbatim>\<open>write\<close> calls cut it:
  the literals \<^verbatim>\<open>"["\<close>, \<^verbatim>\<open>","\<close>, \<^verbatim>\<open>"]"\<close> and \<^verbatim>\<open>"\n"\<close>, and the text of one
  \<^verbatim>\<open>JSON.stringify\<close>-ed object. \<open>Torn\<close> is the text of an object that stops before its
  closing brace.
\<close>

datatype entry = Meta RecordingMetadata | Pkt Packet

datatype token = LBracket | Comma | RBracket | Newline | Value entry | Torn

datatype json = JArr "entry list" | JVal entry

text \<open>The fields of the class \<^verbatim>\<open>DMXRecorder\<close> that the modelled methods read or write.
  Of the stream \<^verbatim>\<open>this.gzip\<close> the state holds the text written to it and whether
  \<^verbatim>\<open>end\<close> has been called on it. \<open>wire\<close> is the log of what the senders were asked to
  transmit, oldest first.\<close>

record DMXRecorder =
  inputUnis :: "nat list"
  senders :: "Sender list"
  playing :: bool
  recording :: bool
  passthrough :: bool
  playerMeta :: "entry option"
  playerContent :: "Packet list option"
  timeout :: "int option"
  gzip :: "token list"
  ended :: bool
  wire :: "(Sender \<times> int list) list"

section \<open>Senders and transmission\<close>

text \<open>\<^verbatim>\<open>createSenders\<close>: one sender per configured output and universe, in configuration
  order. An output is the pair of its \<^verbatim>\<open>ip\<close> and its \<^verbatim>\<open>universe\<close> list. The library
  refuses a subnet above 15; the sender is then \<^verbatim>\<open>null\<close>, the loop that logs the senders
  throws on it, and the outer \<^verbatim>\<open>catch\<close> returns no sender at all.\<close>

definition newSender :: "string \<Rightarrow> nat \<Rightarrow> Sender option" where
  "newSender addr u =
     (if 15 < u div 16 then None
      else Some \<lparr>ip = addr, universe = u mod 16, subnet = u div 16, net = 0\<rparr>)"

definition createSenders :: "(string \<times> nat list) list \<Rightarrow> Sender list" where
  "createSenders outputs =
     (let made = concat (map (\<lambda>(addr, unis). map (newSender addr) unis) outputs)
      in if list_all (\<lambda>sender. sender \<noteq> None) made then map the made else [])"

text \<open>\<^verbatim>\<open>transmitData\<close>: with a sender, its channels are set and the frame goes out; with
  \<^verbatim>\<open>undefined\<close> the property access throws inside the \<^verbatim>\<open>try\<close> and nothing is sent.\<close>

definition transmitData :: "Sender option \<Rightarrow> int list \<Rightarrow> DMXRecorder \<Rightarrow> DMXRecorder" where
  "transmitData sender dat st =
     (case sender of None \<Rightarrow> st | Some s \<Rightarrow> st\<lparr>wire := wire st @ [(s, dat)]\<rparr>)"

text \<open>\<^verbatim>\<open>senders.forEach(sender => sender.fillChannels(0, 511, 0))\<close>.\<close>

definition blackout :: "DMXRecorder \<Rightarrow> DMXRecorder" where
  "blackout st = st\<lparr>wire := wire st @ map (\<lambda>s. (s, replicate 512 0)) (senders st)\<rparr>"

definition checkForTimeout :: "int \<Rightarrow> DMXRecorder \<Rightarrow> DMXRecorder" where
  "checkForTimeout now st = st\<lparr>timeout := Some (now + 3000)\<rparr>"

section \<open>Recording\<close>

text \<open>\<^verbatim>\<open>record()\<close>: a fresh stream that starts with \<^verbatim>\<open>"["\<close> and the metadata object.\<close>

definition record_cmd :: "string \<Rightarrow> int \<Rightarrow> DMXRecorder \<Rightarrow> DMXRecorder" where
  "record_cmd fileName now st =
     st\<lparr>gzip := [LBracket,
                  Value (Meta \<lparr>filename = fileName, createdAt = now, universes = inputUnis st\<rparr>)],
        ended := False,
        recording := True\<rparr>"

text \<open>\<^verbatim>\<open>close()\<close>: writes \<^verbatim>\<open>"]"\<close> and ends the stream with \<^verbatim>\<open>"\n"\<close>.\<close>

definition close :: "DMXRecorder \<Rightarrow> DMXRecorder" where
  "close st =
     (if \<not> recording st then st
      else st\<lparr>recording := False, gzip := gzip st @ [RBracket, Newline], ended := True\<rparr>)"

text \<open>The \<^verbatim>\<open>"data"\<close> handler of the receiver for \<open>uni\<close> (\<^verbatim>\<open>createListeners\<close>), called with
  the channel data and the clock reading.\<close>

definition on_data :: "nat \<Rightarrow> int list \<Rightarrow> int \<Rightarrow> DMXRecorder \<Rightarrow> DMXRecorder" where
  "on_data uni dat now st0 =
     (let st = checkForTimeout now st0 in
      if playing st then st
      else
        let pkt = \<lparr>TS = now, U = uni, S = uni div 16, N = 0, data = dat\<rparr>;
            st1 = (if recording st then st\<lparr>gzip := gzip st @ [Comma, Value (Pkt pkt)]\<rparr> else st)
        in if passthrough st1
           then foldl (\<lambda>s sender. if universe sender = uni
                                   then transmitData (Some sender) dat s else s)
                  st1 (senders st1)
           else st1)"

text \<open>A run of inbound packets: universe, channel data and arrival time of each.\<close>

definition inbound :: "(nat \<times> int list \<times> int) list \<Rightarrow> DMXRecorder \<Rightarrow> DMXRecorder" where
  "inbound evs st = foldl (\<lambda>s (uni, dat, now). on_data uni dat now s) st evs"

text \<open>\<^verbatim>\<open>stop()\<close>.\<close>

definition stop :: "int \<Rightarrow> DMXRecorder \<Rightarrow> DMXRecorder" where
  "stop now st = checkForTimeout now (st\<lparr>playing := False\<rparr>)"

section \<open>Loading\<close>

text \<open>
  \<^verbatim>\<open>JSON.parse\<close> on the token text: white space is skipped; an array is \<^verbatim>\<open>[\<close>, values
  separated by commas, \<^verbatim>\<open>]\<close>, and nothing after it; a single object is a value too.
  Everything else is a \<^verbatim>\<open>SyntaxError\<close>.
\<close>

fun json_rest :: "token list \<Rightarrow> entry list option" where
  "json_rest [RBracket] = Some []"
| "json_rest (Comma # Value v # ts) = map_option ((#) v) (json_rest ts)"
| "json_rest _ = None"

fun json_top :: "token list \<Rightarrow> json option" where
  "json_top [LBracket, RBracket] = Some (JArr [])"
| "json_top (LBracket # Value v # ts) = map_option (\<lambda>vs. JArr (v # vs)) (json_rest ts)"
| "json_top [Value v] = Some (JVal v)"
| "json_top _ = None"

definition JSON_parse :: "token list \<Rightarrow> js_error + json" where
  "JSON_parse text =
     (case json_top (filter (\<lambda>t. t \<noteq> Newline) text) of
        None \<Rightarrow> Inl SyntaxError
      | Some v \<Rightarrow> Inr v)"

text \<open>
  \<^verbatim>\<open>Array.prototype.sort\<close> with a comparison function, as the engine runs it: each
  element is inserted into the sorted run to its left, in front of the first element
  that the comparison function puts it before (\<^verbatim>\<open>comparefn(pivot, element) < 0\<close>).
  The function of the source never returns \<^verbatim>\<open>0\<close>.
\<close>

fun sort_insert :: "('a \<Rightarrow> 'a \<Rightarrow> int) \<Rightarrow> 'a \<Rightarrow> 'a list \<Rightarrow> 'a list" where
  "sort_insert comparefn x [] = [x]"
| "sort_insert comparefn x (y # ys) =
     (if comparefn x y < 0 then x # y # ys else y # sort_insert comparefn x ys)"

definition Array_sort :: "('a \<Rightarrow> 'a \<Rightarrow> int) \<Rightarrow> 'a list \<Rightarrow> 'a list" where
  "Array_sort comparefn xs = foldl (\<lambda>run x. sort_insert comparefn x run) [] xs"

text \<open>\<^verbatim>\<open>(a, b) => (a.TS < b.TS ? -1 : 1)\<close>.\<close>

definition byTS :: "Packet \<Rightarrow> Packet \<Rightarrow> int" where
  "byTS a b = (if TS a < TS b then - 1 else 1)"

text \<open>The elements of \<^verbatim>\<open>data.slice(1)\<close> as the \<^verbatim>\<open>Packet[]\<close> the source takes them for. An
  element that is no packet object has no \<^verbatim>\<open>TS\<close> and no \<^verbatim>\<open>data\<close>; the model refuses such a
  file where the source would go on with \<^verbatim>\<open>undefined\<close> fields.\<close>

fun as_packets :: "entry list \<Rightarrow> Packet list option" where
  "as_packets [] = Some []"
| "as_packets (Pkt p # es) = map_option ((#) p) (as_packets es)"
| "as_packets (Meta m # es) = None"

text \<open>\<^verbatim>\<open>handleFileData\<close>, up to its call of \<^verbatim>\<open>loop()\<close>: the chunks are joined and parsed, a
  running playback is stopped and blacked out, and the metadata and the sorted packets
  are stored.\<close>

definition handleFileData :: "token list list \<Rightarrow> DMXRecorder \<Rightarrow> js_error + DMXRecorder" where
  "handleFileData chunks st0 =
     (case JSON_parse (concat chunks) of
        Inl e \<Rightarrow> Inl e
      | Inr parsed \<Rightarrow>
          (let st = (if playing st0
                     then blackout (st0\<lparr>playing := False, playerMeta := None,
                                       playerContent := None\<rparr>)
                     else st0)
           in (case parsed of
                 JVal v \<Rightarrow> Inl TypeError
               | JArr es \<Rightarrow>
                   (case as_packets (drop 1 es) of
                      None \<Rightarrow> Inl TypeError
                    | Some ps \<Rightarrow>
                        Inr (st\<lparr>playerMeta := (case es of [] \<Rightarrow> None | m # _ \<Rightarrow> Some m),
                                playerContent := Some (Array_sort byTS ps)\<rparr>)))))"


text \<open>The constructor: senders from the configuration, nothing playing or recording,
  passthrough on, the idle timer armed.\<close>

definition DMXRecorder_new :: "nat list \<Rightarrow> (string \<times> nat list) list \<Rightarrow> int \<Rightarrow> DMXRecorder" where
  "DMXRecorder_new unis outputs now =
     checkForTimeout now
       \<lparr>inputUnis = unis, senders = createSenders outputs, playing = False,
        recording = False, passthrough = True, playerMeta = None, playerContent = None,
        timeout = None, gzip = [], ended = False, wire = []\<rparr>"

section \<open>Numbers\<close>

text \<open>
  A \<^verbatim>\<open>number\<close> of the source is an IEEE 754 double, taken here as the rational it
  denotes. The integers up to \<open>2 ^ 53\<close> in size and their halves are doubles, and the sums
  and differences of the counters, lengths, timestamps and channel values of the source
  are exact. A quotient, a product or a sum that is no double is rounded to the nearest
  double, a tie going to the even significand. \<open>double\<close> is that rounding for a result
  in the normal range, which the quantities rounded here (fade factors and scaled
  channel values) do not leave: a double between \<open>2 ^ e\<close> and \<open>2 ^ (e + 1)\<close> is a
  multiple of \<open>2 ^ (e - 52)\<close>. It is applied where the rounded number ends up in a
  channel byte, that is in the two fades; the frame time of \<^verbatim>\<open>processAndDelay\<close>, which
  only sets a timer, is kept as the exact quotient.

  \<^verbatim>\<open>Math.round\<close> rounds to the nearest integer, a tie upwards. A store into a
  \<^verbatim>\<open>Buffer\<close> keeps the value modulo 256. An array read at a number that is no index of
  the array gives \<^verbatim>\<open>undefined\<close>.
\<close>

text \<open>The exponent \<open>e\<close> of a positive number: \<open>2 ^ e \<le> x < 2 ^ (e + 1)\<close>.\<close>

function exponent :: "rat \<Rightarrow> int" where
  "exponent x =
     (if x \<le> 0 then 0
      else if 2 \<le> x then exponent (x / 2) + 1
      else if x < 1 then exponent (x * 2) - 1
      else 0)"
  by pat_completeness auto
termination
proof (relation "measure (\<lambda>x. 2 * nat \<lceil>1 / x\<rceil> + nat \<lceil>x\<rceil>)")
  show "wf (measure (\<lambda>x :: rat. 2 * nat \<lceil>1 / x\<rceil> + nat \<lceil>x\<rceil>))"
    by simp
next
  fix x :: rat
  assume "\<not> x \<le> 0" "2 \<le> x"
  then have a: "\<lceil>x / 2\<rceil> < \<lceil>x\<rceil>" "0 < \<lceil>x / 2\<rceil>"
    by (simp_all add: ceiling_less_iff less_ceiling_iff) linarith
  have "1 / (x / 2) \<le> 1" "0 < 1 / (x / 2)" "1 / x \<le> 1" "0 < 1 / x"
    using \<open>2 \<le> x\<close> by simp_all
  then have b: "\<lceil>1 / (x / 2)\<rceil> = 1" "\<lceil>1 / x\<rceil> = 1"
    by (simp_all add: ceiling_eq_iff)
  show "(x / 2, x) \<in> measure (\<lambda>x. 2 * nat \<lceil>1 / x\<rceil> + nat \<lceil>x\<rceil>)"
    using a b by simp
next
  fix x :: rat
  assume x: "\<not> x \<le> 0" "\<not> 2 \<le> x" "x < 1"
  then have c: "\<lceil>x\<rceil> = 1" "\<lceil>x * 2\<rceil> \<le> 2" "0 < \<lceil>x * 2\<rceil>"
    by (simp_all add: ceiling_eq_iff ceiling_le_iff less_ceiling_iff)
  define y where "y = 1 / x"
  have y: "1 < y" "1 / (x * 2) = y / 2"
    using x by (simp_all add: y_def)
  have "1 < \<lceil>y\<rceil>"
    using y(1) by (simp add: less_ceiling_iff)
  then have "y \<le> of_int \<lceil>y\<rceil>" "(2 :: rat) \<le> of_int \<lceil>y\<rceil>"
    by (simp_all add: le_of_int_ceiling)
  then have "y / 2 \<le> of_int \<lceil>y\<rceil> - 1"
    by linarith
  then have "y / 2 \<le> of_int (\<lceil>y\<rceil> - 1)"
    by simp
  then have "\<lceil>y / 2\<rceil> \<le> \<lceil>y\<rceil> - 1"
    by (rule ceiling_le)
  moreover have "of_int 0 < y / 2"
    using y(1) by simp
  then have "0 < \<lceil>y / 2\<rceil>"
    by (simp only: less_ceiling_iff)
  ultimately have "\<lceil>y / 2\<rceil> < \<lceil>y\<rceil>" "0 < \<lceil>y / 2\<rceil>"
    by simp_all
  then have d: "\<lceil>1 / (x * 2)\<rceil> < \<lceil>1 / x\<rceil>" "0 < \<lceil>1 / (x * 2)\<rceil>"
    by (simp_all only: y(2)) (simp_all only: y_def)
  have "nat \<lceil>1 / (x * 2)\<rceil> < nat \<lceil>1 / x\<rceil>" "nat \<lceil>x * 2\<rceil> \<le> 2" "nat \<lceil>x\<rceil> = 1"
    using c d by linarith+
  then show "(x * 2, x) \<in> measure (\<lambda>x. 2 * nat \<lceil>1 / x\<rceil> + nat \<lceil>x\<rceil>)"
    unfolding in_measure by linarith
qed

declare exponent.simps [simp del]

definition pow2 :: "int \<Rightarrow> rat" where
  "pow2 k = (if 0 \<le> k then 2 ^ nat k else 1 / 2 ^ nat (- k))"

text \<open>The nearest integer, a tie going to the even one.\<close>

definition round_even :: "rat \<Rightarrow> int" where
  "round_even m =
     (let f = \<lfloor>m\<rfloor>
      in if m - of_int f < 1 / 2 then f
         else if 1 / 2 < m - of_int f then f + 1
         else if even f then f else f + 1)"

definition double :: "rat \<Rightarrow> rat" where
  "double x =
     (if x = 0 then 0
      else let ulp = pow2 (exponent \<bar>x\<bar> - 52)
           in sgn x * of_int (round_even (\<bar>x\<bar> / ulp)) * ulp)"

definition Math_round :: "rat \<Rightarrow> int" where
  "Math_round x = \<lfloor>x + 1 / 2\<rfloor>"

definition to_uint8 :: "int \<Rightarrow> int" where
  "to_uint8 z = z mod 256"

definition js_index :: "'a list \<Rightarrow> rat \<Rightarrow> 'a option" where
  "js_index xs r =
     (if r = of_int \<lfloor>r\<rfloor> \<and> 0 \<le> r \<and> r < of_nat (length xs) then Some (xs ! nat \<lfloor>r\<rfloor>) else None)"

section \<open>Playback in \<^verbatim>\<open>src/index.ts\<close>\<close>

text \<open>The delays of \<^verbatim>\<open>loop()\<close>: one for each packet of the sorted buffer.\<close>

definition delays :: "Packet list \<Rightarrow> int list" where
  "delays tempBuffer =
     map (\<lambda>i. if i = 0 then 0 else TS (tempBuffer ! i) - TS (tempBuffer ! (i - 1)))
       [0..<length tempBuffer]"

text \<open>\<^verbatim>\<open>Buffer.from(data.map(value => Math.round(value * factor)))\<close>.\<close>

definition fade_data :: "rat \<Rightarrow> int list \<Rightarrow> int list" where
  "fade_data factor dat = map (\<lambda>v. to_uint8 (Math_round (double (of_int v * factor)))) dat"

text \<open>The body of the fade loop at step \<open>i\<close>: the packet at \<open>i\<close> is faded in, the
  packet at \<^verbatim>\<open>totalPackets - actualFadeSteps + i\<close> is faded out. Reading \<^verbatim>\<open>.data\<close> of
  \<^verbatim>\<open>undefined\<close> throws a \<^verbatim>\<open>TypeError\<close>.\<close>

definition fade_step :: "rat \<Rightarrow> nat \<Rightarrow> Packet list \<Rightarrow> js_error + Packet list" where
  "fade_step actualFadeSteps i tempBuffer =
     (let totalPackets = length tempBuffer;
          fadeFactor = double (of_nat i / actualFadeSteps)
      in (case js_index tempBuffer (of_nat i) of
            None \<Rightarrow> Inl TypeError
          | Some p \<Rightarrow>
              (let buf = tempBuffer[i := p\<lparr>data := fade_data fadeFactor (data p)\<rparr>];
                   endPacketIndex = of_nat totalPackets - actualFadeSteps + of_nat i
               in (case js_index buf endPacketIndex of
                     None \<Rightarrow> Inl TypeError
                   | Some q \<Rightarrow>
                       Inr (buf[nat \<lfloor>endPacketIndex\<rfloor> :=
                                  q\<lparr>data := fade_data (double (1 - fadeFactor)) (data q)\<rparr>])))))"

function fade_loop :: "rat \<Rightarrow> nat \<Rightarrow> Packet list \<Rightarrow> js_error + Packet list" where
  "fade_loop actualFadeSteps i tempBuffer =
     (if of_nat i < actualFadeSteps
      then case fade_step actualFadeSteps i tempBuffer of
             Inl e \<Rightarrow> Inl e
           | Inr buf \<Rightarrow> fade_loop actualFadeSteps (Suc i) buf
      else Inr tempBuffer)"
  by pat_completeness auto
termination
proof (relation "measure (\<lambda>(a, i, buf). nat \<lceil>a\<rceil> - i)")
  show "wf (measure (\<lambda>(a :: rat, i :: nat, buf :: Packet list). nat \<lceil>a\<rceil> - i))"
    by simp
next
  fix a :: rat and i :: nat and tempBuffer x2 :: "Packet list"
  assume "of_nat i < a"
  then have "int i < \<lceil>a\<rceil>"
    by (simp add: less_ceiling_iff)
  then show "((a, Suc i, x2), (a, i, tempBuffer)) \<in> measure (\<lambda>(a, i, buf). nat \<lceil>a\<rceil> - i)"
    by simp
qed

declare fade_loop.simps [simp del]

text \<open>\<^verbatim>\<open>fadeInOutSteps = 300\<close>, \<^verbatim>\<open>actualFadeSteps = Math.min(fadeInOutSteps, totalPackets / 2)\<close>
  and the loop over \<^verbatim>\<open>i < actualFadeSteps\<close>.\<close>

definition actualFadeSteps :: "Packet list \<Rightarrow> rat" where
  "actualFadeSteps tempBuffer = min 300 (of_nat (length tempBuffer) / 2)"

definition fade :: "Packet list \<Rightarrow> js_error + Packet list" where
  "fade tempBuffer = fade_loop (actualFadeSteps tempBuffer) 0 tempBuffer"

text \<open>
  One pass of the playback loop's body. The surroundings supply what the body cannot
  know: \<open>busy\<close>, the clock difference \<^verbatim>\<open>ts2 - ts\<close>, and \<open>stop_at\<close>, the time at which
  \<^verbatim>\<open>stop()\<close> is called while the body awaits its timer, if it is called then. A body
  that does not await cannot be interrupted. The result is \<open>None\<close> for \<^verbatim>\<open>break\<close>, and
  else the next value of \<open>i\<close> (after \<^verbatim>\<open>i++\<close>), the time slept and the new state.
\<close>

record tick =
  busy :: int
  stop_at :: "int option"

definition loop_iteration ::
  "Packet list \<Rightarrow> int list \<Rightarrow> nat \<Rightarrow> tick \<Rightarrow> DMXRecorder \<Rightarrow> (nat \<times> int option \<times> DMXRecorder) option"
where
  "loop_iteration tempBuffer dl i tk st =
     (let pkt = tempBuffer ! i;
          sender = find (\<lambda>s. universe s = U pkt \<and> subnet s = S pkt \<and> net s = N pkt) (senders st)
      in if \<not> playing st then None
         else
           let j = (if i = length tempBuffer - 1 then 0 else i);
               st1 = transmitData sender (data pkt) st;
               pbd = dl ! j - busy tk
           in if pbd > 2
              then Some (Suc j, Some (pbd - 2),
                         (case stop_at tk of None \<Rightarrow> st1 | Some t \<Rightarrow> stop t st1))
              else Some (Suc j, None, st1))"

text \<open>The \<^verbatim>\<open>for\<close> loop, run against a finite schedule of ticks. \<open>Exited\<close> is the loop
  left, by its condition or by \<^verbatim>\<open>break\<close>; \<open>Running\<close> is the schedule used up before a pass
  that would get beyond the \<^verbatim>\<open>break\<close>.\<close>

datatype run = Exited DMXRecorder | Running nat DMXRecorder

fun loop_run :: "Packet list \<Rightarrow> int list \<Rightarrow> tick list \<Rightarrow> nat \<Rightarrow> DMXRecorder \<Rightarrow> run" where
  "loop_run tempBuffer dl [] i st =
     (if i < length tempBuffer \<and> playing st then Running i st else Exited st)"
| "loop_run tempBuffer dl (tk # tks) i st =
     (if i < length tempBuffer
      then case loop_iteration tempBuffer dl i tk st of
             None \<Rightarrow> Exited st
           | Some (i', slept, st') \<Rightarrow> loop_run tempBuffer dl tks i' st'
      else Exited st)"

text \<open>
  \<^verbatim>\<open>loop()\<close> up to its playback loop: nothing to play returns at once; else \<open>playing\<close>
  is set, the content is sorted in place, the delays are taken and the ends are faded
  in place. The frame statistics computed in between are not used afterwards. The
  result is the buffer and the delays the playback loop runs on, or \<open>None\<close> when there
  was nothing to play.
\<close>

definition loop_setup :: "DMXRecorder \<Rightarrow> js_error + DMXRecorder \<times> (Packet list \<times> int list) option" where
  "loop_setup st =
     (case playerContent st of
        None \<Rightarrow> Inr (st, None)
      | Some content \<Rightarrow>
          if content = [] then Inr (st, None)
          else
            (let st1 = st\<lparr>playing := True\<rparr>;
                 tempBuffer = Array_sort byTS content
             in if \<not> playing st1 then Inr (st1\<lparr>playerContent := Some tempBuffer\<rparr>, None)
                else
                  (let dl = delays tempBuffer
                   in (case fade tempBuffer of
                         Inl e \<Rightarrow> Inl e
                       | Inr faded \<Rightarrow>
                           Inr (st1\<lparr>playerContent := Some faded\<rparr>, Some (faded, dl))))))"

definition loop :: "tick list \<Rightarrow> DMXRecorder \<Rightarrow> js_error + run" where
  "loop ticks st =
     (case loop_setup st of
        Inl e \<Rightarrow> Inl e
      | Inr (st1, None) \<Rightarrow> Inr (Exited st1)
      | Inr (st1, Some (tempBuffer, dl)) \<Rightarrow> Inr (loop_run tempBuffer dl ticks 0 st1))"

text \<open>\<^verbatim>\<open>handleFileData\<close> with its call of \<^verbatim>\<open>loop()\<close>: what playing a file comes to once its
  chunks are read.\<close>

definition play_chunks :: "token list list \<Rightarrow> tick list \<Rightarrow> DMXRecorder \<Rightarrow> js_error + run" where
  "play_chunks chunks ticks st =
     (case handleFileData chunks st of
        Inl e \<Rightarrow> Inl e
      | Inr st1 \<Rightarrow> loop ticks st1)"

section \<open>Reading a file\<close>








section \<open>Frames in \<^verbatim>\<open>src/unnamed/part_002\<close>\<close>

definition address :: "Packet \<Rightarrow> nat \<times> nat \<times> nat" where
  "address p = (U p, S p, N p)"

text \<open>The size of the set \<^verbatim>\<open>recordedUniverses\<close>.\<close>

definition recordedUniverses :: "Packet list \<Rightarrow> nat" where
  "recordedUniverses content = length (remdups (map address content))"

text \<open>The loop of \<^verbatim>\<open>prepareFrames\<close> from index \<open>i\<close>. The size is positive whenever there
  is a packet, so the loop always advances.\<close>

function frames_from :: "nat \<Rightarrow> nat \<Rightarrow> Packet list \<Rightarrow> Frame list" where
  "frames_from sz i content =
     (if i < length content \<and> 0 < sz
      then \<lparr>delay = 0, packet = take sz (drop i content)\<rparr> # frames_from sz (i + sz) content
      else [])"
  by pat_completeness auto
termination
  by (relation "measure (\<lambda>(sz, i, content). length content - i)") auto

declare frames_from.simps [simp del]

definition prepareFrames :: "nat \<Rightarrow> Packet list option \<Rightarrow> Frame list" where
  "prepareFrames sz content =
     (case content of
        None \<Rightarrow> []
      | Some [] \<Rightarrow> []
      | Some ps \<Rightarrow> frames_from sz 0 ps)"

text \<open>\<^verbatim>\<open>this.frames\<close> as \<^verbatim>\<open>loop()\<close> of \<^verbatim>\<open>part_002\<close> sets it from the loaded packets.\<close>

definition loop_frames :: "Packet list \<Rightarrow> Frame list" where
  "loop_frames content = prepareFrames (recordedUniverses content) (Some content)"

text \<open>\<^verbatim>\<open>processFrame\<close>, with the comparison of the sender's subnet as the source has it.\<close>

definition processFrame :: "Frame \<Rightarrow> DMXRecorder \<Rightarrow> DMXRecorder" where
  "processFrame frame st =
     foldl (\<lambda>s pkt.
              foldl (\<lambda>s' sender. transmitData (Some sender) (data pkt) s') s
                (filter (\<lambda>sender. universe sender = U pkt \<and> subnet sender = N pkt
                                   \<and> net sender = N pkt) (senders st)))
       st (packet frame)"

text \<open>The timer of \<^verbatim>\<open>processAndDelay\<close> for a frame that took \<open>frameProcessingTime\<close>
  milliseconds, at \<^verbatim>\<open>playbackFPS = fps\<close>. At \<^verbatim>\<open>fps = 0\<close> the target is \<^verbatim>\<open>Infinity\<close>: \<open>None\<close>.\<close>

definition processAndDelay :: "nat \<Rightarrow> int \<Rightarrow> rat option" where
  "processAndDelay fps frameProcessingTime =
     (if fps = 0 then None else Some (max 0 (1000 / of_nat fps - of_int frameProcessingTime)))"

text \<open>
  \<^verbatim>\<open>interpolateFrames\<close>. A channel that \<^verbatim>\<open>packet2\<close> does not have reads as \<^verbatim>\<open>undefined\<close>,
  and a division by \<^verbatim>\<open>totalSteps = 0\<close> gives no finite number; either way the byte stored
  is \<^verbatim>\<open>0\<close>.
\<close>

definition interpolate_channel :: "int \<Rightarrow> int option \<Rightarrow> nat \<Rightarrow> nat \<Rightarrow> int" where
  "interpolate_channel value1 value2 step totalSteps =
     (case value2 of
        None \<Rightarrow> 0
      | Some v2 \<Rightarrow>
          if totalSteps = 0 then 0
          else to_uint8 (Math_round
                 (double (of_int value1
                    + double (of_int (v2 - value1)
                              * double (of_nat step / of_nat totalSteps))))))"

definition interpolatePacket :: "int \<Rightarrow> Packet \<Rightarrow> Packet \<Rightarrow> nat \<Rightarrow> nat \<Rightarrow> Packet" where
  "interpolatePacket now packet1 packet2 step totalSteps =
     \<lparr>TS = now, U = U packet1, S = S packet1, N = N packet1,
      data = map (\<lambda>j. interpolate_channel (data packet1 ! j)
                        (if j < length (data packet2) then Some (data packet2 ! j) else None)
                        step totalSteps)
               [0..<length (data packet1)]\<rparr>"

fun interpolate_loop :: "int \<Rightarrow> Packet list \<Rightarrow> Packet list \<Rightarrow> nat \<Rightarrow> nat \<Rightarrow> Packet list" where
  "interpolate_loop now [] ps2 step totalSteps = []"
| "interpolate_loop now (packet1 # ps1) ps2 step totalSteps =
     (case find (\<lambda>p. U p = U packet1 \<and> S p = S packet1 \<and> N p = N packet1) ps2 of
        None \<Rightarrow> interpolate_loop now ps1 ps2 step totalSteps
      | Some packet2 \<Rightarrow>
          interpolatePacket now packet1 packet2 step totalSteps
            # interpolate_loop now ps1 ps2 step totalSteps)"

definition interpolateFrames :: "int \<Rightarrow> Frame \<Rightarrow> Frame \<Rightarrow> nat \<Rightarrow> nat \<Rightarrow> Frame" where
  "interpolateFrames now frame1 frame2 step totalSteps =
     \<lparr>delay = 0, packet = interpolate_loop now (packet frame1) (packet frame2) step totalSteps\<rparr>"


text \<open>
  The interpolation part of \<^verbatim>\<open>loop()\<close> in \<^verbatim>\<open>part_002\<close>. \<^verbatim>\<open>slice\<close> truncates its
  arguments to integers, and \<^verbatim>\<open>slice(-0)\<close> is the whole array. The clip handed to
  \<^verbatim>\<open>getNewClipStartFrames\<close> is \<^verbatim>\<open>this.playerContent\<close>, which \<^verbatim>\<open>prepareFrames\<close> reads.
  An index \<^verbatim>\<open>i % 0\<close> is no index, the frame read there is \<^verbatim>\<open>undefined\<close>, and reading
  its \<^verbatim>\<open>packet\<close> throws. \<^verbatim>\<open>loop()\<close> has returned before this point when there is no
  packet to play.
\<close>

definition getCurrentClipEndFrames :: "rat \<Rightarrow> Frame list \<Rightarrow> Frame list" where
  "getCurrentClipEndFrames framesForFade frames =
     (if nat \<lfloor>framesForFade\<rfloor> = 0 then frames
      else drop (length frames - nat \<lfloor>framesForFade\<rfloor>) frames)"

definition getNewClipStartFrames :: "Packet list \<Rightarrow> rat \<Rightarrow> Frame list" where
  "getNewClipStartFrames newClip framesForFade = take (nat \<lfloor>framesForFade\<rfloor>) (loop_frames newClip)"

definition crossfade :: "int \<Rightarrow> nat \<Rightarrow> Packet list \<Rightarrow> js_error + Frame list" where
  "crossfade now playbackFPS content =
     (let framesForFade = playbackFPS * 1;
          endFrames = getCurrentClipEndFrames (of_nat framesForFade / 2) (loop_frames content);
          startFrames = getNewClipStartFrames content (of_nat framesForFade / 2)
      in if framesForFade = 0 then Inr []
         else if endFrames = [] \<or> startFrames = [] then Inl TypeError
         else Inr (map (\<lambda>i. interpolateFrames now
                                (endFrames ! (i mod length endFrames))
                                (startFrames ! (i mod length startFrames)) i framesForFade)
                     [0..<framesForFade]))"

section \<open>Example inputs\<close>

text \<open>Three packets on the universes 1 and 2, arriving at 0, 50 and 120 ms.\<close>

definition scenarioA :: "Packet list" where
  "scenarioA =
     [\<lparr>TS = 0, U = 1, S = 0, N = 0, data = [10, 20]\<rparr>,
      \<lparr>TS = 50, U = 2, S = 0, N = 0, data = [30, 40]\<rparr>,
      \<lparr>TS = 120, U = 1, S = 0, N = 0, data = [50, 60]\<rparr>]"

text \<open>Two outputs that both carry universe 5.\<close>

definition scenarioD :: "(string \<times> nat list) list" where
  "scenarioD = [(''192.168.2.20'', [5]), (''192.168.2.22'', [5])]"

definition player :: DMXRecorder where
  "player = DMXRecorder_new [5] scenarioD 0"

text \<open>Two packets on universe 5 and their arrival as inbound events.\<close>

definition arrivals :: "(nat \<times> int list \<times> int) list" where
  "arrivals = [(5, [255, 0], 10), (5, [128, 64], 35)]"

text \<open>A closed recording whose packets are out of order on disk, with equal
  timestamps among them.\<close>

definition unordered :: "token list" where
  "unordered =
     [LBracket, Value (Meta \<lparr>filename = ''a.dmxrec'', createdAt = 0, universes = [1, 2]\<rparr>),
      Comma, Value (Pkt \<lparr>TS = 50, U = 1, S = 0, N = 0, data = [1]\<rparr>),
      Comma, Value (Pkt \<lparr>TS = 20, U = 2, S = 0, N = 0, data = [2]\<rparr>),
      Comma, Value (Pkt \<lparr>TS = 50, U = 2, S = 0, N = 0, data = [3]\<rparr>),
      Comma, Value (Pkt \<lparr>TS = 20, U = 1, S = 0, N = 0, data = [4]\<rparr>),
      RBracket, Newline]"

text \<open>A clip of three packets on universe 5, 40 ms apart.\<close>

definition clip :: "Packet list" where
  "clip =
     [\<lparr>TS = 0, U = 5, S = 0, N = 0, data = [255, 0]\<rparr>,
      \<lparr>TS = 40, U = 5, S = 0, N = 0, data = [128, 64]\<rparr>,
      \<lparr>TS = 80, U = 5, S = 0, N = 0, data = [0, 32]\<rparr>]"

text \<open>A clip of four packets on universe 5, 64 channels each, from dark to full.\<close>

definition ramp :: "Packet list" where
  "ramp =
     [\<lparr>TS = 0, U = 5, S = 0, N = 0, data = replicate 64 0\<rparr>,
      \<lparr>TS = 40, U = 5, S = 0, N = 0, data = replicate 64 85\<rparr>,
      \<lparr>TS = 80, U = 5, S = 0, N = 0, data = replicate 64 170\<rparr>,
      \<lparr>TS = 120, U = 5, S = 0, N = 0, data = replicate 64 255\<rparr>]"

text \<open>A clip of four packets on universe 5: two bright ones, then two dim ones.\<close>

definition quad :: "Packet list" where
  "quad =
     [\<lparr>TS = 0, U = 5, S = 0, N = 0, data = [200, 100]\<rparr>,
      \<lparr>TS = 40, U = 5, S = 0, N = 0, data = [200, 100]\<rparr>,
      \<lparr>TS = 80, U = 5, S = 0, N = 0, data = [40, 20]\<rparr>,
      \<lparr>TS = 120, U = 5, S = 0, N = 0, data = [40, 20]\<rparr>]"

text \<open>Two frames for universe 1 whose packets differ in their number of channels.\<close>

definition wide :: Frame where
  "wide = \<lparr>delay = 0, packet = [\<lparr>TS = 0, U = 1, S = 0, N = 0, data = [10, 20, 30]\<rparr>]\<rparr>"

definition narrow :: Frame where
  "narrow = \<lparr>delay = 0, packet = [\<lparr>TS = 40, U = 1, S = 0, N = 0, data = [10]\<rparr>]\<rparr>"

text \<open>Scenario A as inbound events on a recorder that listens to the universes 1
  and 2.\<close>

definition arrivalsA :: "(nat \<times> int list \<times> int) list" where
  "arrivalsA = [(1, [10, 20], 0), (2, [30, 40], 50), (1, [50, 60], 120)]"

definition recorderA :: DMXRecorder where
  "recorderA = DMXRecorder_new [1, 2] [(''192.168.2.20'', [1, 2])] 0"

section \<open>Inbound traffic while playing\<close>

lemma on_data_playing:
  "playing st \<Longrightarrow> on_data uni dat now st = checkForTimeout now st"
  by (simp add: on_data_def checkForTimeout_def Let_def)

lemma inbound_playing:
  "playing st \<Longrightarrow>
     playing (inbound evs st) \<and> gzip (inbound evs st) = gzip st \<and> wire (inbound evs st) = wire st"
  unfolding inbound_def
proof (induction evs arbitrary: st)
  case Nil
  then show ?case by simp
next
  case (Cons ev evs)
  obtain uni dat now where ev: "ev = (uni, dat, now)"
    by (cases ev) auto
  have step: "on_data uni dat now st = checkForTimeout now st"
    using Cons.prems by (rule on_data_playing)
  have "playing (checkForTimeout now st)"
    using Cons.prems by (simp add: checkForTimeout_def)
  from Cons.IH [OF this] show ?case
    by (simp add: ev step checkForTimeout_def)
qed

text \<open>
  C10. While \<open>playing\<close> is set, the inbound handler returns at its top: whatever
  packets arrive, on whatever universes, nothing is appended to the recording stream
  and nothing is handed to a sender, whether or not recording and passthrough are on.
\<close>

theorem inbound_ignored_while_playing:
  assumes "playing st"
  shows "gzip (on_data uni dat now st) = gzip st \<and> wire (on_data uni dat now st) = wire st
         \<and> gzip (inbound evs st) = gzip st \<and> wire (inbound evs st) = wire st"
  using assms inbound_playing [OF assms, of evs]
  by (simp add: on_data_playing checkForTimeout_def)

theorem inbound_ignored_while_playing_witness:
  "playing (player\<lparr>playing := True, recording := True\<rparr>)
   \<and> gzip (inbound arrivals (player\<lparr>playing := True, recording := True\<rparr>)) = []
   \<and> wire (inbound arrivals (player\<lparr>playing := True, recording := True\<rparr>)) = []
   \<and> wire (inbound arrivals player) \<noteq> []"
  using inbound_ignored_while_playing
          [of "player\<lparr>playing := True, recording := True\<rparr>" 5 "[255, 0]" 10 arrivals]
  by (simp add: player_def DMXRecorder_new_def checkForTimeout_def inbound_def arrivals_def
        on_data_def createSenders_def newSender_def scenarioD_def transmitData_def Let_def)

section \<open>Order of the loaded packets\<close>

lemma mset_sort_insert: "mset (sort_insert c x ys) = add_mset x (mset ys)"
  by (induction ys) auto

lemma set_sort_insert: "set (sort_insert c x ys) = insert x (set ys)"
  by (induction ys) auto

lemma sorted_sort_insert:
  "sorted (map TS ys) \<Longrightarrow> sorted (map TS (sort_insert byTS x ys))"
  by (induction ys) (auto simp: byTS_def set_sort_insert)

lemma filter_sort_insert:
  "sorted (map TS ys) \<Longrightarrow>
     filter (\<lambda>p. TS p = k) (sort_insert byTS x ys)
       = filter (\<lambda>p. TS p = k) ys @ (if TS x = k then [x] else [])"
proof (induction ys)
  case Nil
  then show ?case by simp
next
  case (Cons y ys)
  show ?case
  proof (cases "TS x < TS y")
    case True
    have "\<forall>p \<in> set (y # ys). TS x < TS p"
      using Cons.prems True by auto
    then have "TS x = k \<Longrightarrow> filter (\<lambda>p. TS p = k) (y # ys) = []"
      by (auto simp: filter_empty_conv)
    with True show ?thesis
      by (simp add: byTS_def)
  next
    case False
    with Cons show ?thesis
      by (simp add: byTS_def)
  qed
qed

lemma sort_insert_last:
  "\<forall>p \<in> set ys. TS p \<le> TS x \<Longrightarrow> sort_insert byTS x ys = ys @ [x]"
  by (induction ys) (auto simp: byTS_def)

lemma sort_run:
  "sorted (map TS run) \<Longrightarrow>
     sorted (map TS (foldl (\<lambda>r x. sort_insert byTS x r) run xs))
     \<and> mset (foldl (\<lambda>r x. sort_insert byTS x r) run xs) = mset run + mset xs
     \<and> filter (\<lambda>p. TS p = k) (foldl (\<lambda>r x. sort_insert byTS x r) run xs)
         = filter (\<lambda>p. TS p = k) run @ filter (\<lambda>p. TS p = k) xs"
proof (induction xs arbitrary: run)
  case Nil
  then show ?case by simp
next
  case (Cons x xs)
  have "sorted (map TS (sort_insert byTS x run))"
    using Cons.prems by (rule sorted_sort_insert)
  from Cons.IH [OF this] show ?case
    using Cons.prems by (simp add: mset_sort_insert filter_sort_insert)
qed

lemma sort_run_sorted:
  "sorted (map TS (run @ xs)) \<Longrightarrow> foldl (\<lambda>r x. sort_insert byTS x r) run xs = run @ xs"
proof (induction xs arbitrary: run)
  case Nil
  then show ?case by simp
next
  case (Cons x xs)
  have "\<forall>p \<in> set run. TS p \<le> TS x"
    using Cons.prems by (auto simp: sorted_append)
  then have "sort_insert byTS x run = run @ [x]"
    by (rule sort_insert_last)
  moreover have "sorted (map TS ((run @ [x]) @ xs))"
    using Cons.prems by simp
  ultimately show ?case
    using Cons.IH [of "run @ [x]"] by simp
qed

lemma Array_sort_byTS:
  "sorted (map TS (Array_sort byTS xs))"
  "mset (Array_sort byTS xs) = mset xs"
  "filter (\<lambda>p. TS p = k) (Array_sort byTS xs) = filter (\<lambda>p. TS p = k) xs"
  using sort_run [of "[]" xs k] by (simp_all add: Array_sort_def)

lemma Array_sort_sorted: "sorted (map TS xs) \<Longrightarrow> Array_sort byTS xs = xs"
  using sort_run_sorted [of "[]" xs] by (simp add: Array_sort_def)

lemma as_packets_map: "as_packets es = Some ps \<Longrightarrow> es = map Pkt ps"
  by (induction es arbitrary: ps rule: as_packets.induct) auto

text \<open>
  C8. A load that succeeds stores the packets of the file (everything after the first
  array element) in non-decreasing order of \<open>TS\<close>: the stored sequence is a
  permutation of the packets on disk, and for every timestamp the packets carrying it
  appear in their order on disk. Sorting the stored sequence again, as \<^verbatim>\<open>loop()\<close> does,
  changes nothing.
\<close>

theorem loaded_packets_sorted_stable:
  assumes "handleFileData chunks st = Inr st'"
  shows "\<exists>es ps out. JSON_parse (concat chunks) = Inr (JArr es) \<and> drop 1 es = map Pkt ps
           \<and> playerContent st' = Some out
           \<and> sorted (map TS out)
           \<and> mset out = mset ps
           \<and> (\<forall>k. filter (\<lambda>p. TS p = k) out = filter (\<lambda>p. TS p = k) ps)
           \<and> Array_sort byTS out = out"
proof -
  from assms obtain es ps where parsed: "JSON_parse (concat chunks) = Inr (JArr es)"
    and ps: "as_packets (drop 1 es) = Some ps"
    and out: "playerContent st' = Some (Array_sort byTS ps)"
    by (auto simp: handleFileData_def Let_def split: sum.splits json.splits option.splits)
  have "drop 1 es = map Pkt ps"
    using ps by (rule as_packets_map)
  then show ?thesis
    using parsed out Array_sort_byTS [where xs = ps] Array_sort_sorted [OF Array_sort_byTS(1), of ps]
    by auto
qed

theorem loaded_packets_sorted_stable_witness:
  "\<exists>st'. handleFileData [unordered] player = Inr st'
     \<and> playerContent st' =
         Some [\<lparr>TS = 20, U = 2, S = 0, N = 0, data = [2]\<rparr>,
               \<lparr>TS = 20, U = 1, S = 0, N = 0, data = [4]\<rparr>,
               \<lparr>TS = 50, U = 1, S = 0, N = 0, data = [1]\<rparr>,
               \<lparr>TS = 50, U = 2, S = 0, N = 0, data = [3]\<rparr>]
     \<and> sorted (map TS (the (playerContent st')))"
proof -
  have load: "handleFileData [unordered] player =
      Inr (player\<lparr>playerMeta :=
                     Some (Meta \<lparr>filename = ''a.dmxrec'', createdAt = 0, universes = [1, 2]\<rparr>),
                  playerContent :=
                     Some [\<lparr>TS = 20, U = 2, S = 0, N = 0, data = [2]\<rparr>,
                           \<lparr>TS = 20, U = 1, S = 0, N = 0, data = [4]\<rparr>,
                           \<lparr>TS = 50, U = 1, S = 0, N = 0, data = [1]\<rparr>,
                           \<lparr>TS = 50, U = 2, S = 0, N = 0, data = [3]\<rparr>]\<rparr>)"
    by (simp add: handleFileData_def JSON_parse_def unordered_def Array_sort_def byTS_def
          player_def DMXRecorder_new_def checkForTimeout_def)
  from loaded_packets_sorted_stable [OF load] show ?thesis
    unfolding load by auto
qed

section \<open>The recording file\<close>










section \<open>Frames and delays\<close>

lemma length_delays: "length (delays xs) = length xs"
  by (simp add: delays_def)

lemma nth_delays:
  "i < length xs \<Longrightarrow> delays xs ! i = (if i = 0 then 0 else TS (xs ! i) - TS (xs ! (i - 1)))"
  by (simp add: delays_def)

lemma delays_nonneg:
  assumes "sorted (map TS xs)" "d \<in> set (delays xs)"
  shows "0 \<le> d"
proof -
  from assms(2) obtain i where i: "i < length xs" "d = delays xs ! i"
    by (auto simp: in_set_conv_nth length_delays)
  show ?thesis
  proof (cases "i = 0")
    case True
    with i show ?thesis by (simp add: nth_delays)
  next
    case False
    have "map TS xs ! (i - 1) \<le> map TS xs ! i"
      using assms(1) i(1) by (intro sorted_nth_mono) simp_all
    with False i show ?thesis
      by (simp add: nth_delays)
  qed
qed

lemma recordedUniverses_pos: "content \<noteq> [] \<Longrightarrow> 0 < recordedUniverses content"
  by (simp add: recordedUniverses_def)

lemma length_frames_from:
  "0 < k \<Longrightarrow> length (frames_from k i content) = (length content - i + k - 1) div k"
proof (induction k i content rule: frames_from.induct)
  case (1 sz i content)
  show ?case
  proof (cases "i < length content")
    case True
    have shift: "length content - i + sz - 1 = (length content - i - 1) + sz"
      using True by simp
    have step: "(m + sz) div sz = Suc (m div sz)" for m
      using "1.prems" by simp
    have lhs: "(length content - i + sz - 1) div sz = Suc ((length content - i - 1) div sz)"
      by (simp only: shift step)
    have rhs: "(length content - (i + sz) + sz - 1) div sz = (length content - i - 1) div sz"
    proof (cases "sz \<le> length content - i")
      case True
      then have "length content - (i + sz) + sz - 1 = length content - i - 1"
        by simp
      then show ?thesis by simp
    next
      case False
      then have "length content - (i + sz) + sz - 1 < sz" "length content - i - 1 < sz"
        using "1.prems" by simp_all
      then show ?thesis by simp
    qed
    have "length (frames_from sz i content) = Suc (length (frames_from sz (i + sz) content))"
      using True "1.prems" by (subst frames_from.simps) simp
    with "1.IH" True "1.prems" lhs rhs show ?thesis
      by simp
  next
    case False
    then have "length content - i + sz - 1 < sz"
      using "1.prems" by linarith
    with False show ?thesis
      by (subst frames_from.simps) simp
  qed
qed

lemma nth_frames_from:
  "0 < k \<Longrightarrow> j < length (frames_from k i content) \<Longrightarrow>
     frames_from k i content ! j = \<lparr>delay = 0, packet = take k (drop (i + j * k) content)\<rparr>"
proof (induction k i content arbitrary: j rule: frames_from.induct)
  case (1 sz i content)
  show ?case
  proof (cases "i < length content")
    case True
    have unfold: "frames_from sz i content =
        \<lparr>delay = 0, packet = take sz (drop i content)\<rparr> # frames_from sz (i + sz) content"
      using True "1.prems"(1) by (subst frames_from.simps) simp
    show ?thesis
    proof (cases j)
      case 0
      then show ?thesis by (simp add: unfold)
    next
      case (Suc j')
      with "1.prems" unfold have "j' < length (frames_from sz (i + sz) content)"
        by simp
      with "1.IH" [of j'] True "1.prems"(1)
      have "frames_from sz (i + sz) content ! j'
              = \<lparr>delay = 0, packet = take sz (drop (i + sz + j' * sz) content)\<rparr>"
        by simp
      then show ?thesis
        by (simp add: unfold Suc add.assoc add.commute)
    qed
  next
    case False
    with "1.prems" show ?thesis
      by (subst (asm) frames_from.simps) simp
  qed
qed

text \<open>
  C2, as the code has it. For the three packets on the universes 1 and 2 arriving at 0,
  50 and 120 ms, \<^verbatim>\<open>prepareFrames\<close> gives two frames, the chunks starting at the indices 0
  and 2, and the \<open>delay\<close> of both is 0; the delays of \<^verbatim>\<open>loop()\<close> in \<^verbatim>\<open>src/index.ts\<close> are
  per packet, \<open>[0, 50, 70]\<close>. In general the frames of a non-empty recording are its
  consecutive chunks of \<open>k\<close> packets, \<open>k\<close> the number of distinct addresses, each with
  \<open>delay = 0\<close>; and there is one delay per packet of the sorted buffer, \<open>0\<close> for the first
  and the timestamp gap to the packet before for every other, which no clamp is applied
  to and which is not negative on a buffer sorted by timestamp.
\<close>

theorem frames_and_delays:
  "length (loop_frames scenarioA) = 2
   \<and> map packet (loop_frames scenarioA) = [take 2 scenarioA, drop 2 scenarioA]
   \<and> map delay (loop_frames scenarioA) = [0, 0]
   \<and> delays scenarioA = [0, 50, 70]
   \<and> (content \<noteq> [] \<longrightarrow>
        0 < recordedUniverses content
        \<and> length (loop_frames content)
            = (length content + recordedUniverses content - 1) div recordedUniverses content
        \<and> (\<forall>j < length (loop_frames content).
              loop_frames content ! j =
                \<lparr>delay = 0,
                 packet = take (recordedUniverses content)
                            (drop (j * recordedUniverses content) content)\<rparr>))
   \<and> length (delays tempBuffer) = length tempBuffer
   \<and> (\<forall>i < length tempBuffer.
         delays tempBuffer ! i
           = (if i = 0 then 0 else TS (tempBuffer ! i) - TS (tempBuffer ! (i - 1))))
   \<and> (sorted (map TS tempBuffer) \<longrightarrow> (\<forall>d \<in> set (delays tempBuffer). 0 \<le> d))"
proof -
  have scenario: "map packet (loop_frames scenarioA) = [take 2 scenarioA, drop 2 scenarioA]"
    "map delay (loop_frames scenarioA) = [0, 0]" "delays scenarioA = [0, 50, 70]"
    by (simp_all add: loop_frames_def prepareFrames_def recordedUniverses_def scenarioA_def
          address_def delays_def frames_from.simps)
  have two: "length (loop_frames scenarioA) = 2"
    using scenario(2) by (metis length_map length_Cons list.size(3) numeral_2_eq_2)
  have frames: "0 < recordedUniverses content
        \<and> length (loop_frames content)
            = (length content + recordedUniverses content - 1) div recordedUniverses content
        \<and> (\<forall>j < length (loop_frames content).
              loop_frames content ! j =
                \<lparr>delay = 0,
                 packet = take (recordedUniverses content)
                            (drop (j * recordedUniverses content) content)\<rparr>)"
    if "content \<noteq> []"
  proof -
    have k: "0 < recordedUniverses content"
      using that by (rule recordedUniverses_pos)
    have eq: "loop_frames content = frames_from (recordedUniverses content) 0 content"
      using that by (cases content) (simp_all add: loop_frames_def prepareFrames_def)
    show ?thesis
      using k length_frames_from [OF k, of 0 content] nth_frames_from [OF k, of _ 0 content]
      by (simp add: eq)
  qed
  show ?thesis
    using scenario two frames length_delays [of tempBuffer] nth_delays [of _ tempBuffer]
      delays_nonneg [of tempBuffer]
    by blast
qed

theorem frames_and_delays_witness:
  "scenarioA \<noteq> [] \<and> sorted (map TS scenarioA)
   \<and> recordedUniverses scenarioA = 2
   \<and> length (loop_frames scenarioA) = 2
   \<and> loop_frames scenarioA ! 1 = \<lparr>delay = 0, packet = drop 2 scenarioA\<rparr>
   \<and> delays scenarioA ! 2 = 70
   \<and> list_all (\<lambda>d. 0 \<le> d) (delays scenarioA)"
proof -
  have facts: "scenarioA \<noteq> []" "sorted (map TS scenarioA)" "recordedUniverses scenarioA = 2"
    "length scenarioA = 3" "TS (scenarioA ! 2) - TS (scenarioA ! 1) = 70"
    "take 2 (drop 2 scenarioA) = drop 2 scenarioA"
    by (simp_all add: scenarioA_def recordedUniverses_def address_def)
  from frames_and_delays [of scenarioA scenarioA] facts show ?thesis
    by (simp add: list_all_iff)
qed

text \<open>
  The claim as written fails on that recording: the two frames do not carry the delays
  \<open>[0, 50]\<close>, the delays of \<^verbatim>\<open>src/index.ts\<close> are three and not \<open>[0, 50]\<close>, and the gap
  between the first packets of the two chunks is 120, which is neither frame's delay
  nor 50.
\<close>

theorem scenarioA_counterexample:
  "map delay (loop_frames scenarioA) \<noteq> [0, 50]
   \<and> delays scenarioA \<noteq> [0, 50]
   \<and> TS (hd (packet (loop_frames scenarioA ! 1))) - TS (hd (packet (loop_frames scenarioA ! 0)))
       = 120
   \<and> delay (loop_frames scenarioA ! 1) = 0"
  by (simp add: loop_frames_def prepareFrames_def recordedUniverses_def scenarioA_def
        address_def delays_def frames_from.simps)

section \<open>The playback loop\<close>

lemma loop_iteration_stopped: "\<not> playing st \<Longrightarrow> loop_iteration tempBuffer dl i tk st = None"
  by (simp add: loop_iteration_def Let_def)

lemma loop_run_stopped: "\<not> playing st \<Longrightarrow> loop_run tempBuffer dl ticks i st = Exited st"
  by (cases ticks) (simp_all add: loop_iteration_stopped)

lemma stop_fields: "\<not> playing (stop t st)" "wire (stop t st) = wire st" "senders (stop t st) = senders st"
  by (simp_all add: stop_def checkForTimeout_def)

lemma transmitData_fields:
  "playing (transmitData sender dat st) = playing st"
  "senders (transmitData sender dat st) = senders st"
  "wire (transmitData sender dat st)
     = wire st @ (case sender of None \<Rightarrow> [] | Some s \<Rightarrow> [(s, dat)])"
  by (simp_all add: transmitData_def split: option.splits)

lemma loop_iteration_single:
  assumes "loop_iteration tempBuffer dl i tk st = Some (i', slept, st')"
  shows "wire st' = wire st
           @ (case find (\<lambda>s. universe s = U (tempBuffer ! i) \<and> subnet s = S (tempBuffer ! i)
                              \<and> net s = N (tempBuffer ! i)) (senders st) of
                None \<Rightarrow> []
              | Some s \<Rightarrow> [(s, data (tempBuffer ! i))])"
    and "length (wire st') \<le> Suc (length (wire st))"
proof -
  show eq: "wire st' = wire st
           @ (case find (\<lambda>s. universe s = U (tempBuffer ! i) \<and> subnet s = S (tempBuffer ! i)
                              \<and> net s = N (tempBuffer ! i)) (senders st) of
                None \<Rightarrow> []
              | Some s \<Rightarrow> [(s, data (tempBuffer ! i))])"
    using assms
    by (auto simp: loop_iteration_def Let_def stop_fields transmitData_fields
             split: if_splits option.splits)
  show "length (wire st') \<le> Suc (length (wire st))"
    unfolding eq by (simp split: option.splits)
qed

text \<open>
  C3 on the code. A pass of the playback loop transmits to one sender at most, the
  first that matches (\<open>loop_iteration_single\<close>). With the two outputs that both carry
  universe 5, one pass over a packet for universe 5 hands the channel data to the
  first sender only; the passthrough handler of the same file, and \<^verbatim>\<open>processFrame\<close> of
  \<^verbatim>\<open>part_002\<close>, hand the same data to both.
\<close>

theorem playback_reaches_first_sender_only:
  "senders player = [\<lparr>ip = ''192.168.2.20'', universe = 5, subnet = 0, net = 0\<rparr>,
                     \<lparr>ip = ''192.168.2.22'', universe = 5, subnet = 0, net = 0\<rparr>]
   \<and> map_option (\<lambda>(i', slept, st'). wire st')
        (loop_iteration clip (delays clip) 0
           \<lparr>busy = 0, stop_at = None\<rparr> (player\<lparr>playing := True\<rparr>))
       = Some [(\<lparr>ip = ''192.168.2.20'', universe = 5, subnet = 0, net = 0\<rparr>, [255, 0])]
   \<and> wire (on_data 5 [255, 0] 10 player)
       = [(\<lparr>ip = ''192.168.2.20'', universe = 5, subnet = 0, net = 0\<rparr>, [255, 0]),
          (\<lparr>ip = ''192.168.2.22'', universe = 5, subnet = 0, net = 0\<rparr>, [255, 0])]
   \<and> wire (processFrame \<lparr>delay = 0, packet = take 1 clip\<rparr> player)
       = [(\<lparr>ip = ''192.168.2.20'', universe = 5, subnet = 0, net = 0\<rparr>, [255, 0]),
          (\<lparr>ip = ''192.168.2.22'', universe = 5, subnet = 0, net = 0\<rparr>, [255, 0])]"
  by (simp add: player_def DMXRecorder_new_def checkForTimeout_def createSenders_def
        newSender_def scenarioD_def loop_iteration_def clip_def delays_def transmitData_def
        on_data_def processFrame_def Let_def)

text \<open>
  C4, as the code has it. In a pass of the playback loop of \<^verbatim>\<open>src/index.ts\<close> at an index
  \<open>i\<close> that is not the last, the packet is transmitted and the pass then sleeps
  \<open>delays[i] - busy - 2\<close> milliseconds if that is positive and not at all otherwise,
  that is \<open>max 0 (delays[i] - busy - 2)\<close>, where \<open>busy\<close> is the measured time of
  the pass and \<open>delays[i]\<close> the recorded gap to the packet before. In the frame loop of
  \<^verbatim>\<open>part_002\<close> the target is the frame time of the playback rate instead:
  \<open>max 0 (1000 / fps - busy)\<close>.
\<close>

theorem sleep_of_a_pass:
  assumes "playing st" and "Suc i < length tempBuffer"
  shows "(\<exists>slept st'.
           loop_iteration tempBuffer (delays tempBuffer) i tk st = Some (Suc i, slept, st')
           \<and> slept = (if 2 < delays tempBuffer ! i - busy tk
                      then Some (delays tempBuffer ! i - busy tk - 2) else None)
           \<and> (case slept of None \<Rightarrow> 0 | Some d \<Rightarrow> d)
               = max 0 (delays tempBuffer ! i - busy tk - 2)
           \<and> delays tempBuffer ! i
               = (if i = 0 then 0 else TS (tempBuffer ! i) - TS (tempBuffer ! (i - 1))))
         \<and> (0 < fps \<longrightarrow> processAndDelay fps b = Some (max 0 (1000 / of_nat fps - of_int b)))"
proof -
  have notlast: "i \<noteq> length tempBuffer - 1"
    using assms(2) by simp
  have "i < length tempBuffer"
    using assms(2) by simp
  then have gap: "delays tempBuffer ! i
               = (if i = 0 then 0 else TS (tempBuffer ! i) - TS (tempBuffer ! (i - 1)))"
    by (rule nth_delays)
  have pass: "\<exists>slept st'.
           loop_iteration tempBuffer (delays tempBuffer) i tk st = Some (Suc i, slept, st')
           \<and> slept = (if 2 < delays tempBuffer ! i - busy tk
                      then Some (delays tempBuffer ! i - busy tk - 2) else None)
           \<and> (case slept of None \<Rightarrow> 0 | Some d \<Rightarrow> d)
               = max 0 (delays tempBuffer ! i - busy tk - 2)
           \<and> delays tempBuffer ! i
               = (if i = 0 then 0 else TS (tempBuffer ! i) - TS (tempBuffer ! (i - 1)))"
  proof (cases "2 < delays tempBuffer ! i - busy tk")
    case True
    then show ?thesis
      using assms(1) notlast gap by (simp add: loop_iteration_def Let_def)
  next
    case False
    then show ?thesis
      using assms(1) notlast gap by (simp add: loop_iteration_def Let_def)
  qed
  have frame: "0 < fps \<longrightarrow> processAndDelay fps b = Some (max 0 (1000 / of_nat fps - of_int b))"
    by (simp add: processAndDelay_def)
  from pass frame show ?thesis ..
qed

theorem sleep_of_a_pass_witness:
  "playing (player\<lparr>playing := True\<rparr>) \<and> Suc 1 < length clip
   \<and> (\<exists>st'. loop_iteration clip (delays clip) 1 \<lparr>busy = 7, stop_at = None\<rparr>
               (player\<lparr>playing := True\<rparr>) = Some (Suc 1, Some 31, st'))
   \<and> processAndDelay 30 7 = Some (79 / 3)"
proof -
  have h: "playing (player\<lparr>playing := True\<rparr>)" "Suc 1 < length clip"
    by (simp_all add: clip_def)
  have d: "delays clip ! 1 = 40"
    by (simp add: delays_def clip_def)
  obtain slept st' where
    pass: "loop_iteration clip (delays clip) 1 \<lparr>busy = 7, stop_at = None\<rparr>
             (player\<lparr>playing := True\<rparr>) = Some (Suc 1, slept, st')"
    and slept: "slept = (if 2 < delays clip ! 1 - busy \<lparr>busy = 7, stop_at = None\<rparr>
                        then Some (delays clip ! 1 - busy \<lparr>busy = 7, stop_at = None\<rparr> - 2)
                        else None)"
    using sleep_of_a_pass [OF h, of "\<lparr>busy = 7, stop_at = None\<rparr>" 30 7] by blast
  have "slept = Some 31"
    unfolding slept d by simp
  with pass have "\<exists>st'. loop_iteration clip (delays clip) 1 \<lparr>busy = 7, stop_at = None\<rparr>
               (player\<lparr>playing := True\<rparr>) = Some (Suc 1, Some 31, st')"
    by blast
  moreover have "processAndDelay 30 7 = Some (79 / 3)"
    using sleep_of_a_pass [OF h, of "\<lparr>busy = 7, stop_at = None\<rparr>" 30 7] by simp
  ultimately show ?thesis
    using h by blast
qed

text \<open>
  The claim as written fails: with a recorded delay of 40 ms and a pass that took no
  measurable time, the loop sleeps 38 ms, not \<open>max 0 (50 - 0) = 40\<close>; and the frame loop
  of \<^verbatim>\<open>part_002\<close> sleeps the frame time of 30 frames per second whatever was recorded.
\<close>

theorem sleep_counterexample:
  "map_option (\<lambda>(i', slept, st'). slept)
     (loop_iteration clip (delays clip) 1 \<lparr>busy = 0, stop_at = None\<rparr>
        (player\<lparr>playing := True\<rparr>)) = Some (Some 38)
   \<and> max 0 (delays clip ! 1 - 0) = 40
   \<and> processAndDelay 30 0 = Some (100 / 3)"
  by (simp add: loop_iteration_def delays_def clip_def Let_def processAndDelay_def)

text \<open>
  C9. Let \<^verbatim>\<open>stop()\<close> be called while playback is on, that is while a pass of the loop
  awaits its timer (the only point where the loop gives control away). That pass has
  transmitted before it slept; it sleeps no longer than the delay of the pass; and the
  next thing the loop does is to read the flag and leave, so the log of transmissions
  holds nothing that was sent after the call. In general, a loop that finds the flag
  cleared leaves at once, at whatever index and whatever the schedule, without a
  transmission.
\<close>

theorem stop_ends_playback:
  assumes "playing st" and "i < length tempBuffer"
    and "j = (if i = length tempBuffer - 1 then 0 else i)"
    and "2 < dl ! j - busy tk" and "stop_at tk = Some t"
  shows "(\<exists>st1. loop_iteration tempBuffer dl i tk st
                  = Some (Suc j, Some (dl ! j - busy tk - 2), stop t st1)
               \<and> st1 = transmitData
                         (find (\<lambda>s. universe s = U (tempBuffer ! i) \<and> subnet s = S (tempBuffer ! i)
                                     \<and> net s = N (tempBuffer ! i)) (senders st))
                         (data (tempBuffer ! i)) st
               \<and> loop_run tempBuffer dl (tk # ticks) i st = Exited (stop t st1)
               \<and> wire (stop t st1) = wire st1)
         \<and> loop_iteration tempBuffer dl i' tk' (stop t st) = None
         \<and> loop_run tempBuffer dl ticks' i' (stop t st) = Exited (stop t st)"
proof -
  let ?st1 = "transmitData
                (find (\<lambda>s. universe s = U (tempBuffer ! i) \<and> subnet s = S (tempBuffer ! i)
                            \<and> net s = N (tempBuffer ! i)) (senders st))
                (data (tempBuffer ! i)) st"
  have pass: "loop_iteration tempBuffer dl i tk st
                = Some (Suc j, Some (dl ! j - busy tk - 2), stop t ?st1)"
    using assms by (simp add: loop_iteration_def Let_def)
  have "loop_run tempBuffer dl (tk # ticks) i st = loop_run tempBuffer dl ticks (Suc j) (stop t ?st1)"
    using assms(2) by (simp add: pass)
  also have "\<dots> = Exited (stop t ?st1)"
    by (rule loop_run_stopped) (rule stop_fields)
  finally have called: "\<exists>st1. loop_iteration tempBuffer dl i tk st
                  = Some (Suc j, Some (dl ! j - busy tk - 2), stop t st1)
               \<and> st1 = transmitData
                         (find (\<lambda>s. universe s = U (tempBuffer ! i) \<and> subnet s = S (tempBuffer ! i)
                                     \<and> net s = N (tempBuffer ! i)) (senders st))
                         (data (tempBuffer ! i)) st
               \<and> loop_run tempBuffer dl (tk # ticks) i st = Exited (stop t st1)
               \<and> wire (stop t st1) = wire st1"
    using pass by (simp add: stop_fields)
  have "loop_iteration tempBuffer dl i' tk' (stop t st) = None"
    by (rule loop_iteration_stopped) (rule stop_fields)
  moreover have "loop_run tempBuffer dl ticks' i' (stop t st) = Exited (stop t st)"
    by (rule loop_run_stopped) (rule stop_fields)
  ultimately show ?thesis
    using called by blast
qed

theorem stop_ends_playback_witness:
  "playing (player\<lparr>playing := True\<rparr>) \<and> 1 < length clip
   \<and> 2 < delays clip ! 1 - busy \<lparr>busy = 7, stop_at = Some 1000\<rparr>
   \<and> (\<exists>st'. loop_run clip (delays clip)
               (\<lparr>busy = 7, stop_at = Some 1000\<rparr>
                  # [\<lparr>busy = 1, stop_at = None\<rparr>, \<lparr>busy = 1, stop_at = None\<rparr>])
               1 (player\<lparr>playing := True\<rparr>) = Exited st'
             \<and> \<not> playing st'
             \<and> wire st' = [(\<lparr>ip = ''192.168.2.20'', universe = 5, subnet = 0, net = 0\<rparr>,
                             [128, 64])])"
proof -
  have h: "playing (player\<lparr>playing := True\<rparr>)" "1 < length clip"
    "(1 :: nat) = (if 1 = length clip - 1 then 0 else 1)"
    "2 < delays clip ! 1 - busy \<lparr>busy = 7, stop_at = Some 1000\<rparr>"
    "stop_at \<lparr>busy = 7, stop_at = Some 1000\<rparr> = Some 1000"
    by (simp_all add: clip_def delays_def)
  have first: "find (\<lambda>s. universe s = U (clip ! 1) \<and> subnet s = S (clip ! 1)
                        \<and> net s = N (clip ! 1)) (senders (player\<lparr>playing := True\<rparr>))
                = Some \<lparr>ip = ''192.168.2.20'', universe = 5, subnet = 0, net = 0\<rparr>"
    by (simp add: clip_def player_def DMXRecorder_new_def checkForTimeout_def
          createSenders_def newSender_def scenarioD_def Let_def)
  have w: "wire (player\<lparr>playing := True\<rparr>) = []" "data (clip ! 1) = [128, 64]"
    by (simp_all add: player_def DMXRecorder_new_def checkForTimeout_def clip_def)
  obtain st1 where
    st1: "st1 = transmitData
                 (find (\<lambda>s. universe s = U (clip ! 1) \<and> subnet s = S (clip ! 1)
                             \<and> net s = N (clip ! 1)) (senders (player\<lparr>playing := True\<rparr>)))
                 (data (clip ! 1)) (player\<lparr>playing := True\<rparr>)"
    and run: "loop_run clip (delays clip)
               (\<lparr>busy = 7, stop_at = Some 1000\<rparr>
                  # [\<lparr>busy = 1, stop_at = None\<rparr>, \<lparr>busy = 1, stop_at = None\<rparr>])
               1 (player\<lparr>playing := True\<rparr>) = Exited (stop 1000 st1)"
    using stop_ends_playback
            [OF h, of "[\<lparr>busy = 1, stop_at = None\<rparr>, \<lparr>busy = 1, stop_at = None\<rparr>]"]
    by blast
  have "wire st1 = [(\<lparr>ip = ''192.168.2.20'', universe = 5, subnet = 0, net = 0\<rparr>, [128, 64])]"
    unfolding st1 first w(2) by (simp add: transmitData_def w(1))
  then have "\<not> playing (stop 1000 st1)"
    "wire (stop 1000 st1) = [(\<lparr>ip = ''192.168.2.20'', universe = 5, subnet = 0, net = 0\<rparr>,
                             [128, 64])]"
    by (simp_all add: stop_fields)
  with run h(1,2,4) show ?thesis
    by blast
qed

section \<open>Rounding\<close>

lemma floor_rat_numeral: "\<lfloor>numeral a / numeral b :: rat\<rfloor> = numeral a div numeral b"
  using floor_divide_of_int_eq [of "numeral a" "numeral b", where ?'a = rat] by simp

lemma floor_rat_one: "\<lfloor>1 / numeral b :: rat\<rfloor> = 1 div numeral b"
  using floor_divide_of_int_eq [of 1 "numeral b", where ?'a = rat] by simp













text \<open>The rules that evaluate \<open>double\<close> on a numeral.\<close>

lemmas double_eval =
  double_def exponent.simps pow2_def round_even_def Let_def floor_rat_numeral floor_rat_one





section \<open>The fade at the ends of the clip\<close>

lemma half_not_integer:
  assumes "odd n"
  shows "(of_nat n / 2 :: rat) \<noteq> of_int z"
proof
  assume "(of_nat n / 2 :: rat) = of_int z"
  then have "(of_nat n :: rat) = of_int (2 * z)"
    by simp
  then have "(of_int (int n) :: rat) = of_int (2 * z)"
    by simp
  then have "int n = 2 * z"
    by (simp only: of_int_eq_iff)
  with assms show False
    by presburger
qed

lemma fade_odd:
  assumes "odd (length tempBuffer)" and "length tempBuffer < 600"
  shows "fade tempBuffer = Inl TypeError"
proof -
  let ?n = "length tempBuffer"
  have pos: "0 < ?n"
    using assms(1) by (cases tempBuffer) auto
  have a: "actualFadeSteps tempBuffer = of_nat ?n / 2"
    using assms(2) by (simp add: actualFadeSteps_def min_def)
  have first: "js_index tempBuffer (of_nat 0) = Some (tempBuffer ! 0)"
    using pos by (simp add: js_index_def)
  have "js_index buf (of_nat ?n - of_nat ?n / 2 + of_nat 0) = None" for buf :: "Packet list"
  proof -
    have "(of_nat ?n - of_nat ?n / 2 + of_nat 0 :: rat) = of_nat ?n / 2"
      by simp
    moreover have "(of_nat ?n / 2 :: rat) \<noteq> of_int \<lfloor>of_nat ?n / 2 :: rat\<rfloor>"
      using assms(1) by (rule half_not_integer)
    ultimately show ?thesis
      by (simp only: js_index_def) simp
  qed
  then have "fade_step (of_nat ?n / 2) 0 tempBuffer = Inl TypeError"
    using first by (simp add: fade_step_def Let_def)
  moreover have "(of_nat 0 :: rat) < of_nat ?n / 2"
    using pos by simp
  ultimately show ?thesis
    by (simp add: fade_def a fade_loop.simps [of _ 0])
qed

lemma js_index_nat: "m < length xs \<Longrightarrow> js_index xs (of_nat m) = Some (xs ! m)"
  by (simp add: js_index_def)

lemma fade_step_whole:
  assumes "a = of_nat k" and "i < k" and "2 * k \<le> length tempBuffer"
  shows "\<exists>buf. fade_step a i tempBuffer = Inr buf \<and> length buf = length tempBuffer"
proof -
  let ?n = "length tempBuffer"
  have i: "i < ?n" and m: "?n - k + i < ?n" and k: "k \<le> ?n"
    using assms(2,3) by simp_all
  have "(of_nat ?n - a + of_nat i :: rat) = of_nat (?n - k + i)"
    using k by (simp add: assms(1) of_nat_diff)
  then have "js_index buf (of_nat ?n - a + of_nat i) = Some (buf ! (?n - k + i))"
    if "length buf = ?n" for buf :: "Packet list"
    using js_index_nat [of "?n - k + i" buf] m that by simp
  then show ?thesis
    using js_index_nat [OF i] by (simp add: fade_step_def Let_def)
qed

lemma fade_loop_whole:
  "a = of_nat k \<Longrightarrow> 2 * k \<le> length tempBuffer \<Longrightarrow>
     \<exists>buf. fade_loop a i tempBuffer = Inr buf \<and> length buf = length tempBuffer"
proof (induction a i tempBuffer rule: fade_loop.induct)
  case (1 a i tempBuffer)
  show ?case
  proof (cases "of_nat i < a")
    case True
    then have "i < k"
      using "1.prems"(1) by simp
    from fade_step_whole [OF "1.prems"(1) this "1.prems"(2)]
    obtain buf where step: "fade_step a i tempBuffer = Inr buf" and len: "length buf = length tempBuffer"
      by blast
    from "1.IH" [OF True step "1.prems"(1)] "1.prems"(2) len
    obtain buf' where "fade_loop a (Suc i) buf = Inr buf'" "length buf' = length tempBuffer"
      by auto
    then show ?thesis
      using True step by (subst fade_loop.simps) simp
  next
    case False
    then show ?thesis
      by (subst fade_loop.simps) simp
  qed
qed

lemma fade_whole:
  assumes "even (length tempBuffer) \<or> 600 \<le> length tempBuffer"
  shows "\<exists>buf. fade tempBuffer = Inr buf \<and> length buf = length tempBuffer"
proof (cases "600 \<le> length tempBuffer")
  case True
  then have "actualFadeSteps tempBuffer = of_nat 300"
    by (simp add: actualFadeSteps_def min_def)
  from fade_loop_whole [OF this, of tempBuffer 0] True show ?thesis
    by (simp add: fade_def)
next
  case False
  with assms obtain k where k: "length tempBuffer = 2 * k"
    by (auto elim: evenE)
  with False have "actualFadeSteps tempBuffer = of_nat k"
    by (simp add: actualFadeSteps_def min_def)
  from fade_loop_whole [OF this, of tempBuffer 0] k show ?thesis
    by (simp add: fade_def)
qed

lemma loop_throws:
  assumes "playerContent st = Some tempBuffer" and "sorted (map TS tempBuffer)"
    and "odd (length tempBuffer)" and "length tempBuffer < 600"
  shows "loop ticks st = Inl TypeError"
proof -
  have "tempBuffer \<noteq> []"
    using assms(3) by auto
  moreover have "Array_sort byTS tempBuffer = tempBuffer"
    using assms(2) by (rule Array_sort_sorted)
  moreover have "fade tempBuffer = Inl TypeError"
    using assms(3,4) by (rule fade_odd)
  ultimately show ?thesis
    by (simp add: loop_def loop_setup_def assms(1) Let_def)
qed

lemma scenarioA_recorded:
  "handleFileData [gzip (close (inbound arrivalsA (record_cmd ''a.dmxrec'' 0 recorderA)))] recorderA
     = Inr (recorderA\<lparr>playerMeta := Some (Meta \<lparr>filename = ''a.dmxrec'', createdAt = 0,
                                                 universes = [1, 2]\<rparr>),
                      playerContent := Some scenarioA\<rparr>)"
  by (simp add: recorderA_def DMXRecorder_new_def checkForTimeout_def inbound_def arrivalsA_def
        on_data_def createSenders_def newSender_def transmitData_def record_cmd_def close_def
        Let_def handleFileData_def JSON_parse_def Array_sort_def byTS_def scenarioA_def)

text \<open>
  C7 on the code. The fade goes through on every buffer of even length and on every
  buffer of 600 packets or more (\<open>fade_whole\<close>), and throws on every shorter buffer of
  odd length (\<open>fade_odd\<close>). On the three packets of scenario A the window of \<^verbatim>\<open>loop()\<close>
  in \<^verbatim>\<open>src/index.ts\<close> is \<^verbatim>\<open>Math.min(300, 3 / 2) = 1.5\<close>, the first pass reads
  \<^verbatim>\<open>tempBuffer[3 - 1.5 + 0]\<close>, which is \<^verbatim>\<open>undefined\<close>, and its \<^verbatim>\<open>.data\<close> throws: recording
  the three packets, closing the file and playing it ends in a \<^verbatim>\<open>TypeError\<close> before
  anything is played.
\<close>

theorem fade_scenarioA_throws:
  "actualFadeSteps scenarioA = 3 / 2
   \<and> js_index scenarioA (of_nat (length scenarioA) - actualFadeSteps scenarioA + of_nat 0) = None
   \<and> fade scenarioA = Inl TypeError
   \<and> play_chunks [gzip (close (inbound arrivalsA (record_cmd ''a.dmxrec'' 0 recorderA)))]
         ticks recorderA = Inl TypeError"
proof -
  have len: "length scenarioA = 3"
    by (simp add: scenarioA_def)
  have a: "actualFadeSteps scenarioA = 3 / 2"
    by (simp add: actualFadeSteps_def len)
  have fl: "\<lfloor>3 / 2 :: rat\<rfloor> = 1"
    by (simp add: floor_rat_numeral)
  have idx: "js_index scenarioA (of_nat (length scenarioA) - actualFadeSteps scenarioA + of_nat 0)
               = None"
    by (simp add: a len js_index_def fl)
  have thrown: "fade scenarioA = Inl TypeError"
    by (rule fade_odd) (simp_all add: len)
  have "loop ticks (recorderA\<lparr>playerMeta := Some (Meta \<lparr>filename = ''a.dmxrec'', createdAt = 0,
                                                            universes = [1, 2]\<rparr>),
                                playerContent := Some scenarioA\<rparr>) = Inl TypeError"
    by (rule loop_throws [where tempBuffer = scenarioA]) (simp_all add: scenarioA_def)
  then have "play_chunks [gzip (close (inbound arrivalsA (record_cmd ''a.dmxrec'' 0 recorderA)))]
               ticks recorderA = Inl TypeError"
    by (simp add: play_chunks_def scenarioA_recorded)
  with a idx thrown show ?thesis
    by blast
qed

section \<open>The cross-fade of \<^verbatim>\<open>part_002\<close>\<close>







lemma find_address:
  "find (\<lambda>p. U p = U p1 \<and> S p = S p1 \<and> N p = N p1) ps2 = None
     \<longleftrightarrow> address p1 \<notin> address ` set ps2"
proof -
  have "(U p = U p1 \<and> S p = S p1 \<and> N p = N p1) \<longleftrightarrow> address p1 = address p" for p
    by (auto simp: address_def)
  then show ?thesis
    by (auto simp: find_None_iff image_iff)
qed

lemma address_interpolatePacket: "address (interpolatePacket now p1 p2 step w) = address p1"
  by (simp add: address_def interpolatePacket_def)

lemma address_interpolate_loop:
  "map address (interpolate_loop now ps1 ps2 step w)
     = filter (\<lambda>a. a \<in> address ` set ps2) (map address ps1)"
proof (induction ps1)
  case Nil
  then show ?case by simp
next
  case (Cons p1 ps1)
  show ?case
  proof (cases "find (\<lambda>p. U p = U p1 \<and> S p = S p1 \<and> N p = N p1) ps2")
    case None
    then have "address p1 \<notin> address ` set ps2"
      by (simp add: find_address)
    with None Cons show ?thesis by simp
  next
    case (Some p2)
    then have "address p1 \<in> address ` set ps2"
      using find_address [of p1 ps2] by simp
    with Some Cons show ?thesis
      by (simp add: address_interpolatePacket)
  qed
qed

text \<open>
  C6, as the code has it. The interpolated frame carries exactly the addresses of the
  tail frame that the head frame has too, in the order of the tail frame: a packet of
  the tail frame whose address the head frame lacks is skipped, and nothing with its
  address is in the interpolated frame.
\<close>

theorem unmatched_address_dropped:
  "map address (packet (interpolateFrames now tail head step w))
     = filter (\<lambda>a. a \<in> address ` set (packet head)) (map address (packet tail))
   \<and> (address p \<notin> address ` set (packet head) \<longrightarrow>
        address p \<notin> address ` set (packet (interpolateFrames now tail head step w)))"
proof -
  have eq: "map address (packet (interpolateFrames now tail head step w))
     = filter (\<lambda>a. a \<in> address ` set (packet head)) (map address (packet tail))"
    by (simp add: interpolateFrames_def address_interpolate_loop)
  have "address ` set (packet (interpolateFrames now tail head step w))
          = set (map address (packet (interpolateFrames now tail head step w)))"
    by simp
  also have "\<dots> \<subseteq> address ` set (packet head)"
    unfolding eq by auto
  finally show ?thesis
    using eq by blast
qed

theorem unmatched_address_dropped_witness:
  "address (scenarioA ! 1) \<notin> address ` set (drop 2 scenarioA)
   \<and> scenarioA ! 1 \<in> set (take 2 scenarioA)
   \<and> address (scenarioA ! 1)
        \<notin> address ` set (packet (interpolateFrames 0 \<lparr>delay = 0, packet = take 2 scenarioA\<rparr>
                                   \<lparr>delay = 0, packet = drop 2 scenarioA\<rparr> 3 30))"
proof -
  have absent: "address (scenarioA ! 1) \<notin> address ` set (drop 2 scenarioA)"
    and present: "scenarioA ! 1 \<in> set (take 2 scenarioA)"
    by (simp_all add: scenarioA_def address_def)
  from unmatched_address_dropped
         [of 0 "\<lparr>delay = 0, packet = take 2 scenarioA\<rparr>" "\<lparr>delay = 0, packet = drop 2 scenarioA\<rparr>" 3 30
            "scenarioA ! 1"]
  show ?thesis
    using absent present by simp
qed

text \<open>
  The claim as written fails: the tail frame holds packets for the universes 1 and 2,
  the head frame one for universe 1 only; the interpolated frame holds the one packet
  for universe 1, and the packet for universe 2 is not passed through.
\<close>

theorem tail_only_address_counterexample:
  "packet (interpolateFrames 0 \<lparr>delay = 0, packet = take 2 scenarioA\<rparr>
             \<lparr>delay = 0, packet = drop 2 scenarioA\<rparr> 3 30)
     = [\<lparr>TS = 0, U = 1, S = 0, N = 0, data = [14, 24]\<rparr>]
   \<and> take 2 scenarioA = [\<lparr>TS = 0, U = 1, S = 0, N = 0, data = [10, 20]\<rparr>,
                          \<lparr>TS = 50, U = 2, S = 0, N = 0, data = [30, 40]\<rparr>]"
  by (simp add: interpolateFrames_def scenarioA_def interpolatePacket_def
        interpolate_channel_def Math_round_def to_uint8_def double_eval)

section \<open>The fades at the loop point\<close>


















text \<open>
  The claim as written fails. In doubles, \<^verbatim>\<open>75 * (11 / 30)\<close> is just below \<open>27.5\<close>: the
  byte of step 11 of 30 between 0 and 75 is 27, where the formula gives 28. With a tail
  packet of three channels and a head packet of one, step \<open>0\<close> gives \<open>[10, 0, 0]\<close>, not
  the tail's \<open>[10, 20, 30]\<close>. With a window of one step the cross-fade throws. And the
  fade of \<^verbatim>\<open>src/index.ts\<close> turns the four packets \<open>[200, 100]\<close>, \<open>[200, 100]\<close>,
  \<open>[40, 20]\<close>, \<open>[40, 20]\<close> into black, half, full and half: no value of the tail
  enters the head.
\<close>

theorem crossfade_counterexample:
  "interpolate_channel 0 (Some 75) 11 30 = 27
   \<and> Math_round (of_int 0 + of_int (75 - 0) * (of_nat 11 / of_nat 30)) = 28
   \<and> map data (packet (interpolateFrames 0 wide narrow 0 30)) = [[10, 0, 0]]
   \<and> data (hd (packet wide)) = [10, 20, 30]
   \<and> crossfade 0 1 ramp = Inl TypeError
   \<and> map_sum id (map data) (fade quad) = Inr [[0, 0], [100, 50], [40, 20], [20, 10]]"
proof -
  have "interpolate_channel 0 (Some 75) 11 30 = 27"
    by (simp add: interpolate_channel_def Math_round_def to_uint8_def double_eval)
  moreover have "Math_round (of_int 0 + of_int (75 - 0) * (of_nat 11 / of_nat 30)) = 28"
    by (simp add: Math_round_def)
  moreover have "map data (packet (interpolateFrames 0 wide narrow 0 30)) = [[10, 0, 0]]"
    "data (hd (packet wide)) = [10, 20, 30]"
    by (simp_all add: interpolateFrames_def wide_def narrow_def interpolatePacket_def
          interpolate_channel_def Math_round_def to_uint8_def double_eval)
  moreover have "crossfade 0 1 ramp = Inl TypeError"
    by (simp add: crossfade_def getNewClipStartFrames_def floor_rat_one)
  moreover have "map_sum id (map data) (fade quad) = Inr [[0, 0], [100, 50], [40, 20], [20, 10]]"
    by code_simp
  ultimately show ?thesis
    by blast
qed

end
